theory Spec2Isabelle
  imports Complex_Main "HOL-Library.Sublist"
begin

section \<open>JavaScript strings\<close>

text \<open>
  A JavaScript string is a finite sequence of UTF-16 code units. The components compare
  strings, search them for ASCII keywords, lower-case them and trim them, so a string is
  modelled as the list of its code units. \<open>lit\<close> turns an ASCII literal into such a list.
\<close>

type_synonym code_unit = nat
type_synonym js_string = "code_unit list"

definition lit :: "string \<Rightarrow> js_string" where
  "lit s = map of_char s"

text \<open>
  \<open>String.prototype.toLowerCase\<close>. The model lowers the letters A to Z and leaves every
  other code unit alone. The engine also lowers letters outside ASCII; the only ones whose
  lower case contains an ASCII letter are U+212A (to k) and U+0130 (to i followed by
  U+0307). No keyword of the two components contains a k, and none ends in an i, so
  keyword search sees the same matches under either lowering.
\<close>

definition lowerUnit :: "code_unit \<Rightarrow> code_unit" where
  "lowerUnit c = (if 65 \<le> c \<and> c \<le> 90 then c + 32 else c)"

definition toLowerCase :: "js_string \<Rightarrow> js_string" where
  "toLowerCase s = map lowerUnit s"

text \<open>
  \<open>s.includes(k)\<close>: does \<open>k\<close> occur in \<open>s\<close> as a contiguous run of code units? The
  first argument is the receiver, as in the source.
\<close>

primrec includes_js :: "js_string \<Rightarrow> js_string \<Rightarrow> bool" where
  "includes_js [] k = (k = [])"
| "includes_js (c # cs) k = (prefix k (c # cs) \<or> includes_js cs k)"

text \<open>
  \<open>String.prototype.trim\<close> removes white space and line terminators from both ends:
  TAB, LF, VT, FF, CR, SP, NBSP, U+1680, U+2000 to U+200A, U+2028, U+2029, U+202F, U+205F,
  U+3000 and U+FEFF.
\<close>

definition isWhiteSpace :: "code_unit \<Rightarrow> bool" where
  "isWhiteSpace c =
     (c \<in> set [9, 10, 11, 12, 13, 32, 160, 5760, 8232, 8233, 8239, 8287, 12288, 65279]
      \<or> (8192 \<le> c \<and> c \<le> 8202))"

definition trim :: "js_string \<Rightarrow> js_string" where
  "trim s = rev (dropWhile isWhiteSpace (rev (dropWhile isWhiteSpace s)))"

text \<open>Truthiness of a string: the empty string is the only falsy one.\<close>

definition truthy :: "js_string \<Rightarrow> bool" where
  "truthy s = (s \<noteq> [])"

section \<open>JavaScript values at run time\<close>

text \<open>
  The types of the source are erased before it runs: what a parsed JSON body holds, and
  what a call passes, is a value of any kind. These are the values JSON can produce, and
  \<open>undefined\<close> for a member that is not there. A number is the real number the double
  stands for (JSON has neither NaN nor infinities); an object is the list of its own
  members, each name once.
\<close>

datatype js_value =
    JsUndefined
  | JsNull
  | JsBoolean bool
  | JsNumber real
  | JsString js_string
  | JsArray "js_value list"
  | JsObject "(js_string \<times> js_value) list"

datatype js_error = NetworkError | HttpError js_string | JsonSyntaxError | TypeError

text \<open>Truthiness: \<open>undefined\<close>, \<open>null\<close>, \<open>false\<close>, zero and the empty string are falsy.\<close>

definition truthy_value :: "js_value \<Rightarrow> bool" where
  "truthy_value v =
     (case v of
        JsUndefined \<Rightarrow> False
      | JsNull \<Rightarrow> False
      | JsBoolean b \<Rightarrow> b
      | JsNumber x \<Rightarrow> x \<noteq> 0
      | JsString s \<Rightarrow> truthy s
      | JsArray xs \<Rightarrow> True
      | JsObject members \<Rightarrow> True)"

definition isString :: "js_value \<Rightarrow> bool" where
  "isString v = (case v of JsString s \<Rightarrow> True | _ \<Rightarrow> False)"

text \<open>
  \<open>result.response\<close>: reading the member of \<open>null\<close> or \<open>undefined\<close> throws a TypeError;
  an object gives its member, or \<open>undefined\<close> if it has none of that name; a boolean, a
  number, a string or an array has no such member.
\<close>

definition readResponse :: "js_value \<Rightarrow> js_error + js_value" where
  "readResponse result =
     (case result of
        JsUndefined \<Rightarrow> Inl TypeError
      | JsNull \<Rightarrow> Inl TypeError
      | JsObject members \<Rightarrow>
          Inr (case map_of members (lit ''response'') of Some v \<Rightarrow> v | None \<Rightarrow> JsUndefined)
      | _ \<Rightarrow> Inr JsUndefined)"

text \<open>
  The two string methods as the engine dispatches them on a value of any kind.
  \<open>v.toLowerCase()\<close> exists on strings only; on anything else the call throws a
  TypeError. \<open>v.includes(k)\<close> is the substring test on a string and the membership test
  on an array, and throws on anything else.
\<close>

definition toLowerCase_rt :: "js_value \<Rightarrow> js_error + js_value" where
  "toLowerCase_rt v =
     (case v of JsString s \<Rightarrow> Inr (JsString (toLowerCase s)) | _ \<Rightarrow> Inl TypeError)"

definition includes_rt :: "js_value \<Rightarrow> js_string \<Rightarrow> js_error + bool" where
  "includes_rt v k =
     (case v of
        JsString s \<Rightarrow> Inr (includes_js s k)
      | JsArray xs \<Rightarrow> Inr (JsString k \<in> set xs)
      | _ \<Rightarrow> Inl TypeError)"

text \<open>\<open>a || b\<close> on conditions that may throw: \<open>b\<close> is evaluated only if \<open>a\<close> is false.\<close>

definition or_rt :: "js_error + bool \<Rightarrow> js_error + bool \<Rightarrow> js_error + bool" where
  "or_rt a b = (case a of Inl e \<Rightarrow> Inl e | Inr t \<Rightarrow> if t then Inr True else b)"

section \<open>The chatbot's offline answers\<close>

definition nl :: js_string where
  "nl = [10]"

definition bullet :: js_string where
  "bullet = [8226]"

definition arraySortingText :: js_string where
  "arraySortingText =
     lit ''Arrays are fundamental data structures! For sorting:'' @ nl @ nl
     @ bullet @ lit '' **Bubble Sort**: O(n'' @ [178] @ lit '') - Good for learning'' @ nl
     @ bullet @ lit '' **Quick Sort**: O(n log n) average - Very efficient'' @ nl
     @ bullet @ lit '' **Merge Sort**: O(n log n) - Stable, consistent'' @ nl @ nl
     @ lit ''Key tip: Practice with different array problems to master pointer techniques!''"

definition treeBinaryText :: js_string where
  "treeBinaryText =
     lit ''Binary Trees are crucial for DSA! Key concepts:'' @ nl @ nl
     @ bullet @ lit '' **Traversals**: Inorder, Preorder, Postorder'' @ nl
     @ bullet @ lit '' **BST Properties**: Left < Root < Right'' @ nl
     @ bullet @ lit '' **Common Problems**: Height, Diameter, LCA'' @ nl @ nl
     @ lit ''Start with basic traversals and build up to complex tree problems!''"

definition graphText :: js_string where
  "graphText =
     lit ''Graph algorithms are powerful! Essential ones:'' @ nl @ nl
     @ bullet @ lit '' **BFS**: Level-order, shortest path in unweighted graphs'' @ nl
     @ bullet @ lit '' **DFS**: Deep exploration, cycle detection'' @ nl
     @ bullet @ lit '' **Dijkstra**: Shortest path with weights'' @ nl
     @ bullet @ lit '' **Union-Find**: Connected components'' @ nl @ nl
     @ lit ''Visualize the graph first, then choose the right traversal method!''"

definition dynamicText :: js_string where
  "dynamicText =
     lit ''Dynamic Programming is all about optimization! Approach:'' @ nl @ nl
     @ lit ''1. **Identify**: Overlapping subproblems'' @ nl
     @ lit ''2. **Define**: State and recurrence relation'' @ nl
     @ lit ''3. **Implement**: Top-down (memoization) or bottom-up'' @ nl @ nl
     @ lit ''Start with Fibonacci, Climbing Stairs, then move to 2D DP problems!''"

definition complexityText :: js_string where
  "complexityText =
     lit ''Time Complexity Analysis:'' @ nl @ nl
     @ bullet @ lit '' **O(1)**: Constant - Hash operations'' @ nl
     @ bullet @ lit '' **O(log n)**: Logarithmic - Binary search'' @ nl
     @ bullet @ lit '' **O(n)**: Linear - Single loop'' @ nl
     @ bullet @ lit '' **O(n log n)**: Efficient sorting'' @ nl
     @ bullet @ lit '' **O(n'' @ [178] @ lit '')**: Nested loops'' @ nl @ nl
     @ lit ''Always analyze your solution and think about optimizations!''"

definition genericText :: js_string where
  "genericText =
     lit ''Great question! DSA is all about practice and understanding patterns. Here are some general tips:''
     @ nl @ nl
     @ bullet @ lit '' Start with easy problems and build confidence'' @ nl
     @ bullet @ lit '' Focus on understanding patterns rather than memorizing'' @ nl
     @ bullet @ lit '' Practice coding by hand sometimes'' @ nl
     @ bullet @ lit '' Explain your approach before coding'' @ nl @ nl
     @ lit ''What specific DSA topic would you like to explore?''"

text \<open>\<open>getFallbackResponse\<close>: five keyword tests in order, then the generic answer.\<close>

definition getFallbackResponse :: "js_string \<Rightarrow> js_string" where
  "getFallbackResponse query =
     (let lowerQuery = toLowerCase query in
      if includes_js lowerQuery (lit ''array'') \<or> includes_js lowerQuery (lit ''sorting'')
        then arraySortingText
      else if includes_js lowerQuery (lit ''tree'') \<or> includes_js lowerQuery (lit ''binary'')
        then treeBinaryText
      else if includes_js lowerQuery (lit ''graph'') \<or> includes_js lowerQuery (lit ''bfs'')
              \<or> includes_js lowerQuery (lit ''dfs'')
        then graphText
      else if includes_js lowerQuery (lit ''dynamic'') \<or> includes_js lowerQuery (lit ''dp'')
        then dynamicText
      else if includes_js lowerQuery (lit ''time'') \<or> includes_js lowerQuery (lit ''complexity'')
        then complexityText
      else genericText)"

text \<open>
  The specification's reading of the same function: a fixed topic table searched in
  order, the first entry with a keyword in the lowered request wins.
\<close>

definition topicTable :: "(js_string list \<times> js_string) list" where
  "topicTable =
     [([lit ''array'', lit ''sorting''], arraySortingText),
      ([lit ''tree'', lit ''binary''], treeBinaryText),
      ([lit ''graph'', lit ''bfs'', lit ''dfs''], graphText),
      ([lit ''dynamic'', lit ''dp''], dynamicText),
      ([lit ''time'', lit ''complexity''], complexityText)]"

definition fallback_by_table :: "js_string \<Rightarrow> js_string" where
  "fallback_by_table requestText =
     (case find (\<lambda>entry. list_ex (includes_js (toLowerCase requestText)) (fst entry)) topicTable of
        Some entry \<Rightarrow> snd entry
      | None \<Rightarrow> genericText)"

definition fallbackTexts :: "js_string list" where
  "fallbackTexts =
     [arraySortingText, treeBinaryText, graphText, dynamicText, complexityText, genericText]"

section \<open>The chatbot: sending a message\<close>

text \<open>
  \<open>Message\<close>, and the component's three pieces of state. The identifier of a message is
  the decimal text of a clock reading. The interface declares \<open>content\<close> a string; the
  field holds whatever value the handler stores there.
\<close>

record message =
  id_msg :: js_string
  content :: js_value
  isBot :: bool
  timestamp :: nat

record chat_state =
  messages :: "message list"
  inputValue :: js_string
  isLoading :: bool

text \<open>\<open>Number.prototype.toString\<close> on a non-negative integer: its decimal digits.\<close>

fun toString :: "nat \<Rightarrow> js_string" where
  "toString n = (if n < 10 then [48 + n] else toString (n div 10) @ [48 + n mod 10])"

declare toString.simps [simp del]

text \<open>
  What the handler cannot decide by itself comes from the environment: the four clock
  readings (\<open>Date.now()\<close> and \<open>new Date()\<close> for the user's message, then for the bot's),
  and what the chat service does with the request. \<open>fetch\<close> rejects (no connection), or
  resolves to a response with its \<open>ok\<close> flag; \<open>response.json()\<close> then rejects (the body is
  not JSON) or yields the parsed value, of any kind.
\<close>

datatype json_result = JsonRejected | JsonParsed js_value

datatype fetch_outcome = FetchRejected | Responded bool json_result

record send_env =
  userIdNow :: nat
  userTimestamp :: nat
  botIdNow :: nat
  botTimestamp :: nat
  upstream :: fetch_outcome

text \<open>
  \<open>getFallbackResponse\<close> as the engine runs a call of it. The function is a closure of
  the component: the clock and the component's state are within its reach, and its
  argument is a value of any kind. Every step that can throw returns \<open>Inl\<close>.
\<close>

definition getFallbackResponse_rt ::
  "send_env \<Rightarrow> chat_state \<Rightarrow> js_value \<Rightarrow> js_error + js_value" where
  "getFallbackResponse_rt env scope query =
     (case toLowerCase_rt query of
        Inl e \<Rightarrow> Inl e
      | Inr lowerQuery \<Rightarrow>
          (case or_rt (includes_rt lowerQuery (lit ''array''))
                      (includes_rt lowerQuery (lit ''sorting'')) of
             Inl e \<Rightarrow> Inl e
           | Inr isArray \<Rightarrow>
               if isArray then Inr (JsString arraySortingText)
               else
          (case or_rt (includes_rt lowerQuery (lit ''tree''))
                      (includes_rt lowerQuery (lit ''binary'')) of
             Inl e \<Rightarrow> Inl e
           | Inr isTree \<Rightarrow>
               if isTree then Inr (JsString treeBinaryText)
               else
          (case or_rt (or_rt (includes_rt lowerQuery (lit ''graph''))
                             (includes_rt lowerQuery (lit ''bfs'')))
                      (includes_rt lowerQuery (lit ''dfs'')) of
             Inl e \<Rightarrow> Inl e
           | Inr isGraph \<Rightarrow>
               if isGraph then Inr (JsString graphText)
               else
          (case or_rt (includes_rt lowerQuery (lit ''dynamic''))
                      (includes_rt lowerQuery (lit ''dp'')) of
             Inl e \<Rightarrow> Inl e
           | Inr isDynamic \<Rightarrow>
               if isDynamic then Inr (JsString dynamicText)
               else
          (case or_rt (includes_rt lowerQuery (lit ''time''))
                      (includes_rt lowerQuery (lit ''complexity'')) of
             Inl e \<Rightarrow> Inl e
           | Inr isTime \<Rightarrow>
               if isTime then Inr (JsString complexityText)
               else Inr (JsString genericText)))))))"

text \<open>The effects a run leaves outside the component's state.\<close>

record fetch_call =
  url :: js_string
  body_message :: js_string
  body_context :: js_string

record toast_call =
  title :: js_string
  description :: js_string
  variant :: js_string

record effects =
  fetchCalls :: "fetch_call list"
  consoleErrors :: "js_error list"
  toasts :: "toast_call list"

definition noEffects :: effects where
  "noEffects = \<lparr>fetchCalls = [], consoleErrors = [], toasts = []\<rparr>"

definition rephraseText :: js_string where
  "rephraseText =
     lit ''I'm having trouble understanding that. Could you rephrase your question about DSA concepts?''"

definition connectionIssueToast :: toast_call where
  "connectionIssueToast =
     \<lparr>title = lit ''Connection Issue'',
      description = lit ''Using offline responses. Backend service may be unavailable.'',
      variant = lit ''destructive''\<rparr>"

text \<open>
  The body of the \<open>try\<close>: the call to the chat service and the bot message built from its
  answer. \<open>Inl\<close> is an exception thrown inside the block. \<open>query\<close> is the \<open>inputValue\<close> the
  handler closed over.
\<close>

definition tryBlock :: "send_env \<Rightarrow> js_string \<Rightarrow> chat_state \<Rightarrow> js_error + chat_state" where
  "tryBlock env query s =
     (case upstream env of
        FetchRejected \<Rightarrow> Inl NetworkError
      | Responded ok body \<Rightarrow>
          if \<not> ok then Inl (HttpError (lit ''Failed to get response from DSA assistant''))
          else
            (case body of
               JsonRejected \<Rightarrow> Inl JsonSyntaxError
             | JsonParsed result \<Rightarrow>
                 (case readResponse result of
                    Inl e \<Rightarrow> Inl e
                  | Inr response \<Rightarrow>
                      let botMessage =
                            \<lparr>id_msg = toString (botIdNow env + 1),
                             content = (if truthy_value response then response
                                        else JsString rephraseText),
                             isBot = True,
                             timestamp = botTimestamp env\<rparr>
                      in Inr (s\<lparr>messages := messages s @ [botMessage]\<rparr>))))"

text \<open>The \<open>catch\<close> block: log, answer from the offline table, raise the toast.\<close>

definition catchBlock ::
  "send_env \<Rightarrow> js_string \<Rightarrow> js_error \<Rightarrow> chat_state \<times> effects \<Rightarrow> chat_state \<times> effects" where
  "catchBlock env query error sfx =
     (let s = fst sfx; fx = snd sfx;
          fallbackResponse = JsString (getFallbackResponse query);
          botMessage =
            \<lparr>id_msg = toString (botIdNow env + 1),
             content = fallbackResponse,
             isBot = True,
             timestamp = botTimestamp env\<rparr>
      in (s\<lparr>messages := messages s @ [botMessage]\<rparr>,
          fx\<lparr>consoleErrors := consoleErrors fx @ [error],
             toasts := toasts fx @ [connectionIssueToast]\<rparr>))"

text \<open>
  \<open>handleSendMessage\<close>. The result is what the promise of the \<open>async\<close> function settles
  to: \<open>Inl\<close> a rejection, \<open>Inr\<close> the state and the effects after it resolved.
\<close>

definition userMessage :: "send_env \<Rightarrow> chat_state \<Rightarrow> message" where
  "userMessage env s =
     \<lparr>id_msg = toString (userIdNow env),
      content = JsString (inputValue s),
      isBot = False,
      timestamp = userTimestamp env\<rparr>"

definition chatRequest :: "chat_state \<Rightarrow> fetch_call" where
  "chatRequest s =
     \<lparr>url = lit ''http://localhost:8002/chat'',
      body_message = inputValue s,
      body_context = lit ''dsa_learning''\<rparr>"

definition handleSendMessage :: "send_env \<Rightarrow> chat_state \<Rightarrow> js_error + chat_state \<times> effects" where
  "handleSendMessage env s =
     (if \<not> truthy (trim (inputValue s)) \<or> isLoading s then Inr (s, noEffects)
      else
        let s1 = s\<lparr>messages := messages s @ [userMessage env s],
                   inputValue := [],
                   isLoading := True\<rparr>;
            fx1 = noEffects\<lparr>fetchCalls := [chatRequest s]\<rparr>;
            settled = (case tryBlock env (inputValue s) s1 of
                         Inr s2 \<Rightarrow> (s2, fx1)
                       | Inl error \<Rightarrow> catchBlock env (inputValue s) error (s1, fx1))
        in Inr ((fst settled)\<lparr>isLoading := False\<rparr>, snd settled))"

text \<open>
  The live call succeeded when \<open>fetch\<close> resolved with \<open>ok\<close> and the body parsed to a value
  whose \<open>response\<close> member can be read (any value but \<open>null\<close>). A response is served from the offline table
  exactly when the \<open>catch\<close> block ran, which is when the toast is raised.
\<close>

definition liveCallSucceeded :: "fetch_outcome \<Rightarrow> bool" where
  "liveCallSucceeded out =
     (case out of
        Responded ok body \<Rightarrow>
          ok \<and> (case body of
                  JsonParsed result \<Rightarrow> result \<noteq> JsNull \<and> result \<noteq> JsUndefined
                | JsonRejected \<Rightarrow> False)
      | FetchRejected \<Rightarrow> False)"

datatype response_source = LIVE | FALLBACK

definition sourceOf :: "effects \<Rightarrow> response_source option" where
  "sourceOf fx =
     (if fetchCalls fx = [] then None
      else if connectionIssueToast \<in> set (toasts fx) then Some FALLBACK
      else Some LIVE)"

section \<open>The course form\<close>

record form_state =
  selectedSubject :: js_string
  customTopic :: js_string
  purpose :: js_string
  difficulty :: js_string
  customPrompt :: js_string
  includeExamPrep :: bool
  showNonCSEWarning :: bool

definition initialForm :: form_state where
  "initialForm =
     \<lparr>selectedSubject = [],
      customTopic = [],
      purpose = lit ''exam_preparation'',
      difficulty = lit ''intermediate'',
      customPrompt = [],
      includeExamPrep = True,
      showNonCSEWarning = False\<rparr>"

definition handleSubjectSelect :: "js_string \<Rightarrow> form_state \<Rightarrow> form_state" where
  "handleSubjectSelect subject s =
     s\<lparr>selectedSubject := subject, customTopic := [], showNonCSEWarning := False\<rparr>"

definition nonCSEKeywords :: "js_string list" where
  "nonCSEKeywords =
     [lit ''biology'', lit ''chemistry'', lit ''physics'', lit ''history'', lit ''geography'',
      lit ''literature'', lit ''arts'', lit ''music'', lit ''medical'', lit ''civil'',
      lit ''mechanical'', lit ''electrical'']"

definition isNonCSE :: "js_string \<Rightarrow> bool" where
  "isNonCSE v = list_ex (\<lambda>keyword. includes_js (toLowerCase v) keyword) nonCSEKeywords"

definition handleCustomTopicChange :: "js_string \<Rightarrow> form_state \<Rightarrow> form_state" where
  "handleCustomTopicChange v s =
     s\<lparr>customTopic := v, selectedSubject := [], showNonCSEWarning := isNonCSE v\<rparr>"

text \<open>The arguments of one call of the \<open>onSubmit\<close> callback.\<close>

record submit_call =
  arg_courseName :: js_string
  arg_purpose :: js_string
  arg_difficulty :: js_string
  arg_customPrompt :: js_string
  arg_includeExamPrep :: bool

definition courseName :: "form_state \<Rightarrow> js_string" where
  "courseName s = (if truthy (selectedSubject s) then selectedSubject s else customTopic s)"

text \<open>
  \<open>handleSubmit\<close> returns the form's state after it and the call of \<open>onSubmit\<close> it made,
  if any.
\<close>

definition handleSubmit :: "form_state \<Rightarrow> form_state \<times> submit_call option" where
  "handleSubmit s =
     (if \<not> truthy (trim (courseName s)) then (s, None)
      else if showNonCSEWarning s then (s, None)
      else (s, Some \<lparr>arg_courseName = courseName s,
                      arg_purpose = purpose s,
                      arg_difficulty = difficulty s,
                      arg_customPrompt = customPrompt s,
                      arg_includeExamPrep = includeExamPrep s\<rparr>))"

text \<open>
  What a user can do to the form between two submissions: press a subject button, type
  in the topic field, choose a purpose or a difficulty, tick the box, type in the prompt
  field, or submit. The form's states are those reached from the initial one.
\<close>

datatype form_event =
    SubjectSelect js_string
  | CustomTopicChange js_string
  | SetPurpose js_string
  | SetDifficulty js_string
  | SetIncludeExamPrep bool
  | SetCustomPrompt js_string
  | Submit

fun formStep :: "form_state \<Rightarrow> form_event \<Rightarrow> form_state" where
  "formStep s (SubjectSelect subject) = handleSubjectSelect subject s"
| "formStep s (CustomTopicChange v) = handleCustomTopicChange v s"
| "formStep s (SetPurpose p) = s\<lparr>purpose := p\<rparr>"
| "formStep s (SetDifficulty d) = s\<lparr>difficulty := d\<rparr>"
| "formStep s (SetIncludeExamPrep b) = s\<lparr>includeExamPrep := b\<rparr>"
| "formStep s (SetCustomPrompt p) = s\<lparr>customPrompt := p\<rparr>"
| "formStep s Submit = fst (handleSubmit s)"

definition formAfter :: "form_event list \<Rightarrow> form_state" where
  "formAfter events = foldl formStep initialForm events"

section \<open>The gateway core\<close>

text \<open>
  The gateway that stands in front of the services is started by the run-book
  (\<open>start_api_gateway.py\<close>) and is not among the sources at hand. Its registry, its
  credential resolver, its circuit policy and its router are modelled from the
  specification, sections 3 and 4.
\<close>

datatype gateway_error = UnknownServiceError | MissingCredentialError | RoutingError

subsection \<open>Service registry\<close>

record service_descriptor =
  name :: string
  baseURL :: string
  healthPath :: string
  timeoutMs :: nat
  maxRetries :: nat

type_synonym registry = "string \<rightharpoonup> service_descriptor"

text \<open>
  Modelled from the spec: the registry's \<open>resolve\<close> (section 4.1), whose code is missing.
  It returns the descriptor configured under the name and fails with
  \<open>UnknownServiceError\<close> if the name is absent.
\<close>

definition resolve :: "registry \<Rightarrow> string \<Rightarrow> gateway_error + service_descriptor" where
  "resolve reg n = (case reg n of Some d \<Rightarrow> Inr d | None \<Rightarrow> Inl UnknownServiceError)"

subsection \<open>Credential resolver\<close>

text \<open>
  The key configuration of the run-book: one default key, and for some services a key
  of their own (\<open>GROQ_API_KEY\<close> and \<open>COURSE_SERVICE_GROQ_KEY\<close>, say).
\<close>

record credential_config =
  defaultKey :: "string option"
  serviceKey :: "string \<rightharpoonup> string"

text \<open>
  Modelled from the spec: the resolver's \<open>credentialFor\<close> (section 4.2), whose code is
  missing. A service-specific key that exists and is non-empty is used; otherwise the
  default key; if neither exists, \<open>MissingCredentialError\<close>.
\<close>

definition credentialFor :: "credential_config \<Rightarrow> string \<Rightarrow> gateway_error + string" where
  "credentialFor cfg svc =
     (case serviceKey cfg svc of
        Some k \<Rightarrow>
          if k \<noteq> [] then Inr k
          else (case defaultKey cfg of Some d \<Rightarrow> Inr d | None \<Rightarrow> Inl MissingCredentialError)
      | None \<Rightarrow>
          (case defaultKey cfg of Some d \<Rightarrow> Inr d | None \<Rightarrow> Inl MissingCredentialError))"

subsection \<open>Circuit policy\<close>

datatype circuit_status = CLOSED | OPEN | HALF_OPEN

record health_state =
  status :: circuit_status
  consecutiveFailures :: nat
  openedAt :: nat

record circuit_policy =
  threshold :: nat
  coolDown :: nat

definition freshHealth :: health_state where
  "freshHealth = \<lparr>status = CLOSED, consecutiveFailures = 0, openedAt = 0\<rparr>"

datatype admission = PassThrough | Probe | ShortCircuit

text \<open>
  Modelled from the spec: the circuit policy (section 4.4), whose code is missing. A
  call first asks to be admitted. CLOSED lets it through. OPEN turns it away until the
  cool-down has passed since the circuit opened; the next call after that goes through as
  the probe and the circuit is HALF_OPEN while the probe is out, turning every other call
  away.
\<close>

definition admit :: "circuit_policy \<Rightarrow> nat \<Rightarrow> health_state \<Rightarrow> admission \<times> health_state" where
  "admit p now h =
     (case status h of
        CLOSED \<Rightarrow> (PassThrough, h)
      | OPEN \<Rightarrow>
          if openedAt h + coolDown p \<le> now then (Probe, h\<lparr>status := HALF_OPEN\<rparr>)
          else (ShortCircuit, h)
      | HALF_OPEN \<Rightarrow> (ShortCircuit, h))"

text \<open>
  Modelled from the spec: the outcome of an admitted call, reported back (sections 4.4
  and 4.5). A success closes the circuit and clears the counter. A failure in CLOSED
  counts, and opens the circuit when the count has reached the threshold; a failed probe
  reopens it and restarts the cool-down. Nothing is in flight while the circuit is OPEN,
  and a report that arrives then changes nothing.
\<close>

definition report :: "circuit_policy \<Rightarrow> nat \<Rightarrow> bool \<Rightarrow> health_state \<Rightarrow> health_state" where
  "report p now succeeded h =
     (if succeeded then h\<lparr>status := CLOSED, consecutiveFailures := 0\<rparr>
      else
        (case status h of
           CLOSED \<Rightarrow>
             if threshold p \<le> consecutiveFailures h + 1
             then h\<lparr>status := OPEN, consecutiveFailures := consecutiveFailures h + 1,
                    openedAt := now\<rparr>
             else h\<lparr>consecutiveFailures := consecutiveFailures h + 1\<rparr>
         | HALF_OPEN \<Rightarrow> h\<lparr>status := OPEN, openedAt := now\<rparr>
         | OPEN \<Rightarrow> h))"

text \<open>
  Modelled from the spec: one call under the policy, start to end (section 4.5, steps 3
  and 4), whose code is missing. It gives where the answer came from, how many times the
  upstream was called, and the health state afterwards. \<open>succeeds\<close> says what the
  upstream would answer if it were called.
\<close>

definition guardedCall ::
  "circuit_policy \<Rightarrow> nat \<Rightarrow> bool \<Rightarrow> health_state \<Rightarrow> (response_source \<times> nat) \<times> health_state" where
  "guardedCall p now succeeds h =
     (case admit p now h of
        (ShortCircuit, h1) \<Rightarrow> ((FALLBACK, 0), h1)
      | (_, h1) \<Rightarrow> ((if succeeds then LIVE else FALLBACK, 1), report p now succeeds h1))"

text \<open>A run of calls that all fail, at the given times.\<close>

definition afterFailures :: "circuit_policy \<Rightarrow> nat list \<Rightarrow> health_state \<Rightarrow> health_state" where
  "afterFailures p ts h = foldl (\<lambda>h' now. snd (guardedCall p now False h')) h ts"

subsection \<open>Request router\<close>

datatype upstream_error = TIMEOUT | REFUSED | HTTP nat | MALFORMED_BODY

record request_envelope =
  operation :: string
  payload :: js_string
  userContext :: js_string

record response_envelope =
  body :: js_string
  source :: response_source
  latencyMs :: nat

record gateway =
  operations :: "string \<rightharpoonup> string"
  services :: registry
  credentials :: credential_config
  policy :: circuit_policy
  health :: "string \<Rightarrow> health_state"

text \<open>What one routed request meets: the clock, the time it takes, the upstream's answer.\<close>

record call_env =
  clock :: nat
  elapsed :: nat
  answer :: "upstream_error + js_string"

text \<open>
  Modelled from the spec: the router's \<open>route\<close> (section 4.5), whose code is missing. The
  operation names its service; the descriptor and the credentials are resolved and their
  errors passed on; the circuit policy admits the call or turns it away; an admitted
  call is reported back; a call turned away or failed is answered by the fallback
  function.
\<close>

definition route ::
  "gateway \<Rightarrow> call_env \<Rightarrow> request_envelope \<Rightarrow> (gateway_error + response_envelope) \<times> gateway" where
  "route g env req =
     (case operations g (operation req) of
        None \<Rightarrow> (Inl RoutingError, g)
      | Some svc \<Rightarrow>
          (case resolve (services g) svc of
             Inl e \<Rightarrow> (Inl e, g)
           | Inr descriptor \<Rightarrow>
               (case credentialFor (credentials g) svc of
                  Inl e \<Rightarrow> (Inl e, g)
                | Inr key \<Rightarrow>
                    let degraded = \<lparr>body = getFallbackResponse (payload req),
                                    source = FALLBACK, latencyMs = elapsed env\<rparr>;
                        admitted = admit (policy g) (clock env) (health g svc);
                        h1 = snd admitted
                    in if fst admitted = ShortCircuit
                       then (Inr degraded, g\<lparr>health := (health g)(svc := h1)\<rparr>)
                       else
                         (case answer env of
                            Inr text \<Rightarrow>
                              (Inr \<lparr>body = text, source = LIVE, latencyMs = elapsed env\<rparr>,
                               g\<lparr>health :=
                                   (health g)(svc := report (policy g) (clock env) True h1)\<rparr>)
                          | Inl e \<Rightarrow>
                              (Inr degraded,
                               g\<lparr>health :=
                                   (health g)(svc := report (policy g) (clock env) False h1)\<rparr>)))))"

text \<open>The gateway after a run of routed requests, one after the other.\<close>

definition serve :: "gateway \<Rightarrow> (call_env \<times> request_envelope) list \<Rightarrow> gateway" where
  "serve g calls = foldl (\<lambda>g' call. snd (route g' (fst call) (snd call))) g calls"

section \<open>Strings: basic facts\<close>

lemma includes_js_sublist: "includes_js s k = sublist k s"
  by (induction s) (auto simp: sublist_Cons_right)

lemma lowerUnit_idem: "lowerUnit (lowerUnit c) = lowerUnit c"
  by (simp add: lowerUnit_def)

lemma toLowerCase_idem: "toLowerCase (toLowerCase s) = toLowerCase s"
  by (simp add: toLowerCase_def lowerUnit_idem)

lemma dropWhile_all_iff: "(\<forall>x \<in> set (dropWhile P s). P x) \<longleftrightarrow> (\<forall>x \<in> set s. P x)"
  by (induction s) auto

lemma trim_empty_iff: "trim s = [] \<longleftrightarrow> (\<forall>c \<in> set s. isWhiteSpace c)"
  by (simp add: trim_def dropWhile_all_iff)

section \<open>The offline answers: verification\<close>

lemma fallbackTexts_nonempty: "[] \<notin> set fallbackTexts"
  by (simp add: fallbackTexts_def arraySortingText_def treeBinaryText_def graphText_def
      dynamicText_def complexityText_def genericText_def lit_def)

lemma fallbackTexts_distinct: "distinct fallbackTexts"
  by (simp add: fallbackTexts_def arraySortingText_def treeBinaryText_def graphText_def
      dynamicText_def complexityText_def genericText_def lit_def nl_def bullet_def)

lemma getFallbackResponse_in_texts: "getFallbackResponse q \<in> set fallbackTexts"
  by (simp add: getFallbackResponse_def fallbackTexts_def Let_def)

lemma getFallbackResponse_nonempty: "getFallbackResponse q \<noteq> []"
  using getFallbackResponse_in_texts [of q] fallbackTexts_nonempty by metis

lemma rephraseText_nonempty: "rephraseText \<noteq> []"
  by (simp add: rephraseText_def lit_def)

text \<open>
  Claim C1. For every request text the fallback function classifies it by keyword
  membership against the fixed topic table, in table order (array/sorting, tree/binary,
  graph/bfs/dfs, dynamic/dp, time/complexity): it returns the answer of the first entry
  one of whose keywords occurs in the lowered text, and the generic study tips when no
  keyword occurs. The request "best sorting algorithm for arrays" gets the array/sorting
  answer, "explain DFS on a graph" the graph answer, and "asdkjh" the generic text.
\<close>

theorem fallback_classification:
  "getFallbackResponse requestText = fallback_by_table requestText
   \<and> getFallbackResponse (lit ''best sorting algorithm for arrays'') = arraySortingText
   \<and> getFallbackResponse (lit ''explain DFS on a graph'') = graphText
   \<and> getFallbackResponse (lit ''asdkjh'') = genericText"
proof -
  have table: "getFallbackResponse requestText = fallback_by_table requestText"
    by (simp add: getFallbackResponse_def fallback_by_table_def topicTable_def Let_def)
  have sorting: "getFallbackResponse (lit ''best sorting algorithm for arrays'') = arraySortingText"
    by (simp add: getFallbackResponse_def lit_def toLowerCase_def lowerUnit_def)
  have dfs: "getFallbackResponse (lit ''explain DFS on a graph'') = graphText"
    by (simp add: getFallbackResponse_def lit_def toLowerCase_def lowerUnit_def)
  have junk: "getFallbackResponse (lit ''asdkjh'') = genericText"
    by (simp add: getFallbackResponse_def lit_def toLowerCase_def lowerUnit_def)
  from table sorting dfs junk show ?thesis by blast
qed

text \<open>
  Claim C8. The fallback function does not see the case of its input: the answer to a
  query is the answer to the lowered query, because the query is lowered before the
  keywords are looked for.
\<close>

theorem fallback_case_insensitive:
  "getFallbackResponse q = getFallbackResponse (toLowerCase q)"
  by (simp add: getFallbackResponse_def toLowerCase_idem)

section \<open>Sending a message: verification\<close>

lemma or_rt_Inr: "or_rt (Inr a) (Inr b) = Inr (a \<or> b)"
  by (simp add: or_rt_def)

lemma getFallbackResponse_rt_throws:
  "getFallbackResponse_rt env scope JsUndefined = Inl TypeError"
  "getFallbackResponse_rt env scope (JsNumber 42) = Inl TypeError"
  by (simp_all add: getFallbackResponse_rt_def toLowerCase_rt_def)

lemma readResponse_reads:
  "result \<noteq> JsNull \<Longrightarrow> result \<noteq> JsUndefined \<Longrightarrow> \<exists>r. readResponse result = Inr r"
  by (cases result) (simp_all add: readResponse_def)

lemma readResponse_throws:
  "result = JsNull \<or> result = JsUndefined \<Longrightarrow> readResponse result = Inl TypeError"
  by (auto simp: readResponse_def)

lemma tryBlock_failure:
  "\<not> liveCallSucceeded (upstream env) \<Longrightarrow> \<exists>e. tryBlock env q s = Inl e"
  by (auto simp: tryBlock_def liveCallSucceeded_def readResponse_def
      split: fetch_outcome.splits json_result.splits)

lemma tryBlock_success:
  assumes "liveCallSucceeded (upstream env)"
  shows "\<exists>bot result r. upstream env = Responded True (JsonParsed result)
           \<and> readResponse result = Inr r
           \<and> tryBlock env q s = Inr (s\<lparr>messages := messages s @ [bot]\<rparr>)
           \<and> isBot bot
           \<and> content bot = (if truthy_value r then r else JsString rephraseText)
           \<and> id_msg bot = toString (botIdNow env + 1) \<and> timestamp bot = botTimestamp env"
proof -
  from assms obtain result where up: "upstream env = Responded True (JsonParsed result)"
    and ok: "result \<noteq> JsNull" "result \<noteq> JsUndefined"
    by (auto simp: liveCallSucceeded_def split: fetch_outcome.splits json_result.splits)
  from readResponse_reads [OF ok] obtain r where r: "readResponse result = Inr r" by blast
  let ?bot = "\<lparr>id_msg = toString (botIdNow env + 1),
               content = (if truthy_value r then r else JsString rephraseText),
               isBot = True, timestamp = botTimestamp env\<rparr>"
  from up r have "tryBlock env q s = Inr (s\<lparr>messages := messages s @ [?bot]\<rparr>)"
    by (simp add: tryBlock_def Let_def)
  moreover have "isBot ?bot" "content ?bot = (if truthy_value r then r else JsString rephraseText)"
    "id_msg ?bot = toString (botIdNow env + 1)" "timestamp ?bot = botTimestamp env"
    by simp_all
  ultimately show ?thesis using up r by blast
qed

lemma handleSendMessage_resolves: "\<exists>s' fx. handleSendMessage env s = Inr (s', fx)"
  by (simp add: handleSendMessage_def Let_def)

text \<open>
  What holds of every send that passes the guard, whatever the chat service does: the
  promise resolves, the conversation has grown by the user's message and one bot message,
  and the loading flag is down. After a failed call the bot's text is the fallback
  function's answer. After a call that succeeded it is the \<open>response\<close> member of the body
  if that is truthy, and the request to rephrase otherwise.
\<close>

lemma handleSendMessage_appends:
  assumes "truthy (trim (inputValue s))" and "\<not> isLoading s"
  shows "\<exists>s' fx bot. handleSendMessage env s = Inr (s', fx)
           \<and> messages s' = messages s @ [userMessage env s, bot]
           \<and> isBot bot
           \<and> id_msg bot = toString (botIdNow env + 1) \<and> timestamp bot = botTimestamp env
           \<and> \<not> isLoading s'
           \<and> (\<not> liveCallSucceeded (upstream env)
                \<longrightarrow> content bot = JsString (getFallbackResponse (inputValue s)))
           \<and> (\<forall>result r. upstream env = Responded True (JsonParsed result)
                  \<and> readResponse result = Inr r
                \<longrightarrow> content bot = (if truthy_value r then r else JsString rephraseText)
                    \<and> fx = noEffects\<lparr>fetchCalls := [chatRequest s]\<rparr>)"
proof (cases "liveCallSucceeded (upstream env)")
  case True
  let ?s1 = "s\<lparr>messages := messages s @ [userMessage env s], inputValue := [], isLoading := True\<rparr>"
  from tryBlock_success [OF True, of "inputValue s" ?s1]
  obtain bot result r where up: "upstream env = Responded True (JsonParsed result)"
    and r: "readResponse result = Inr r"
    and t: "tryBlock env (inputValue s) ?s1 = Inr (?s1\<lparr>messages := messages ?s1 @ [bot]\<rparr>)"
    and b: "isBot bot" "id_msg bot = toString (botIdNow env + 1)"
      "timestamp bot = botTimestamp env"
    and c: "content bot = (if truthy_value r then r else JsString rephraseText)"
    by blast
  let ?s' = "(?s1\<lparr>messages := messages ?s1 @ [bot]\<rparr>)\<lparr>isLoading := False\<rparr>"
  from assms t have eq: "handleSendMessage env s = Inr (?s', noEffects\<lparr>fetchCalls := [chatRequest s]\<rparr>)"
    by (simp add: handleSendMessage_def Let_def)
  have m: "messages ?s' = messages s @ [userMessage env s, bot]" by simp
  have l: "\<not> isLoading ?s'" by simp
  let ?fx = "noEffects\<lparr>fetchCalls := [chatRequest s]\<rparr>"
  have live: "\<forall>result' r'. upstream env = Responded True (JsonParsed result')
                \<and> readResponse result' = Inr r'
              \<longrightarrow> content bot = (if truthy_value r' then r' else JsString rephraseText)
                  \<and> ?fx = noEffects\<lparr>fetchCalls := [chatRequest s]\<rparr>"
    using up r c by auto
  from eq m l b True live show ?thesis by blast
next
  case False
  let ?s1 = "s\<lparr>messages := messages s @ [userMessage env s], inputValue := [], isLoading := True\<rparr>"
  let ?fx1 = "noEffects\<lparr>fetchCalls := [chatRequest s]\<rparr>"
  from tryBlock_failure [OF False, of "inputValue s" ?s1]
  obtain e where t: "tryBlock env (inputValue s) ?s1 = Inl e" by blast
  let ?bot = "\<lparr>id_msg = toString (botIdNow env + 1),
               content = JsString (getFallbackResponse (inputValue s)),
               isBot = True, timestamp = botTimestamp env\<rparr>"
  let ?c = "catchBlock env (inputValue s) e (?s1, ?fx1)"
  let ?s' = "(fst ?c)\<lparr>isLoading := False\<rparr>"
  from assms t have eq: "handleSendMessage env s = Inr (?s', snd ?c)"
    by (simp add: handleSendMessage_def Let_def)
  have m: "messages ?s' = messages s @ [userMessage env s, ?bot]"
    by (simp add: catchBlock_def Let_def)
  have l: "\<not> isLoading ?s'" by simp
  have b: "isBot ?bot" "id_msg ?bot = toString (botIdNow env + 1)"
    "timestamp ?bot = botTimestamp env"
    "content ?bot = JsString (getFallbackResponse (inputValue s))"
    by simp_all
  have live: "\<forall>result r. upstream env = Responded True (JsonParsed result)
                \<and> readResponse result = Inr r
              \<longrightarrow> content ?bot = (if truthy_value r then r else JsString rephraseText)
                  \<and> snd ?c = noEffects\<lparr>fetchCalls := [chatRequest s]\<rparr>"
    using False by (auto simp: liveCallSucceeded_def readResponse_def)
  from eq m l b live show ?thesis by blast
qed

text \<open>
  Claim C4. The fallback function is total and deterministic. A call of it on a string
  never throws, whatever the string: it returns a string, one of the six fixed answers,
  the one the typed reading of the function computes. And the answer depends on the
  argument alone: two calls on the same string, at any two clock readings and in any two
  states of the component, return the same value.
\<close>

theorem fallback_total_deterministic:
  "getFallbackResponse_rt env scope (JsString q) = Inr (JsString (getFallbackResponse q))
   \<and> getFallbackResponse q \<in> set fallbackTexts
   \<and> getFallbackResponse_rt env scope (JsString q)
       = getFallbackResponse_rt env' scope' (JsString q)"
proof -
  have run: "getFallbackResponse_rt e sc (JsString q) = Inr (JsString (getFallbackResponse q))"
    for e sc
    by (simp add: getFallbackResponse_rt_def toLowerCase_rt_def includes_rt_def or_rt_Inr
        getFallbackResponse_def Let_def)
  have "getFallbackResponse q \<in> set fallbackTexts"
    by (rule getFallbackResponse_in_texts)
  with run [of env scope] run [of env' scope'] show ?thesis by simp
qed

text \<open>
  Claim C2. For every outcome of the call to the chat service the send appends a
  well-formed bot message and lets no error out; on a failure the message is the fallback
  function's. The handler does let no error out, and it answers every failure from the
  fallback function (\<open>handleSendMessage_appends\<close>). But it stores the \<open>response\<close> member
  of a body served with status 200 without looking at its kind: when that member is
  truthy and not a string (a number, \<open>true\<close>, an array, an object), the bot message's
  \<open>content\<close> is that value, not the string the \<open>Message\<close> interface declares, and the
  response counts as live: no toast, no fallback answer.
\<close>

theorem send_stores_non_string_response:
  assumes "truthy (trim (inputValue s))" and "\<not> isLoading s"
    and "upstream env = Responded True (JsonParsed result)"
    and "readResponse result = Inr r"
    and "truthy_value r" and "\<not> isString r"
  shows "\<exists>s' fx bot. handleSendMessage env s = Inr (s', fx)
           \<and> messages s' = messages s @ [userMessage env s, bot]
           \<and> isBot bot \<and> content bot = r \<and> \<not> isString (content bot)
           \<and> sourceOf fx = Some LIVE"
proof -
  from handleSendMessage_appends [OF assms(1,2), of env]
  obtain s' fx bot where eq: "handleSendMessage env s = Inr (s', fx)"
    and m: "messages s' = messages s @ [userMessage env s, bot]"
    and b: "isBot bot"
    and live: "\<forall>result r. upstream env = Responded True (JsonParsed result)
                 \<and> readResponse result = Inr r
               \<longrightarrow> content bot = (if truthy_value r then r else JsString rephraseText)
                   \<and> fx = noEffects\<lparr>fetchCalls := [chatRequest s]\<rparr>"
    by blast
  from live assms(3,4) have "content bot = (if truthy_value r then r else JsString rephraseText)"
    and fx: "fx = noEffects\<lparr>fetchCalls := [chatRequest s]\<rparr>"
    by blast+
  with assms(5) have c: "content bot = r" by simp
  from fx have src: "sourceOf fx = Some LIVE"
    by (simp add: sourceOf_def noEffects_def)
  from eq m b c assms(6) src show ?thesis by blast
qed

theorem send_stores_non_string_response_witness:
  "truthy (trim (lit ''dp''))
   \<and> readResponse (JsObject [(lit ''response'', JsObject [(lit ''text'', JsString (lit ''Use BFS''))])])
       = Inr (JsObject [(lit ''text'', JsString (lit ''Use BFS''))])
   \<and> (\<exists>s' fx bot.
         handleSendMessage
           \<lparr>userIdNow = 1000, userTimestamp = 1000, botIdNow = 1001, botTimestamp = 1001,
            upstream = Responded True (JsonParsed (JsObject
              [(lit ''response'', JsObject [(lit ''text'', JsString (lit ''Use BFS''))])]))\<rparr>
           \<lparr>messages = [], inputValue = lit ''dp'', isLoading = False\<rparr> = Inr (s', fx)
         \<and> length (messages s') = 2 \<and> last (messages s') = bot \<and> isBot bot
         \<and> content bot = JsObject [(lit ''text'', JsString (lit ''Use BFS''))]
         \<and> \<not> isString (content bot)
         \<and> sourceOf fx = Some LIVE)"
proof -
  let ?r = "JsObject [(lit ''text'', JsString (lit ''Use BFS''))]"
  let ?result = "JsObject [(lit ''response'', ?r)]"
  let ?env = "\<lparr>userIdNow = 1000, userTimestamp = 1000, botIdNow = 1001, botTimestamp = 1001,
               upstream = Responded True (JsonParsed ?result)\<rparr>"
  let ?s = "\<lparr>messages = [], inputValue = lit ''dp'', isLoading = False\<rparr>"
  have guard: "truthy (trim (lit ''dp''))"
    by (simp add: truthy_def trim_def isWhiteSpace_def lit_def)
  then have h1: "truthy (trim (inputValue ?s))" by simp
  have h2: "\<not> isLoading ?s" by simp
  have h3: "upstream ?env = Responded True (JsonParsed ?result)" by simp
  have h4: "readResponse ?result = Inr ?r" by (simp add: readResponse_def)
  have h5: "truthy_value ?r" by (simp add: truthy_value_def)
  have h6: "\<not> isString ?r" by (simp add: isString_def)
  from send_stores_non_string_response [OF h1 h2 h3 h4 h5 h6]
  obtain s' fx bot where "handleSendMessage ?env ?s = Inr (s', fx)"
    and "messages s' = messages ?s @ [userMessage ?env ?s, bot]"
    and "isBot bot" and "content bot = ?r" and "\<not> isString (content bot)"
    and "sourceOf fx = Some LIVE"
    by blast
  then have "handleSendMessage ?env ?s = Inr (s', fx) \<and> length (messages s') = 2
      \<and> last (messages s') = bot \<and> isBot bot \<and> content bot = ?r
      \<and> \<not> isString (content bot) \<and> sourceOf fx = Some LIVE"
    by simp
  with guard h4 show ?thesis by blast
qed

text \<open>
  Claim C9. When the input is empty or all white space, or a send is still in flight
  (\<open>isLoading\<close>), the handler returns at once: the state, the message list with it, is
  what it was, and no request has been made.
\<close>

theorem send_guard_returns:
  assumes "(\<forall>c \<in> set (inputValue s). isWhiteSpace c) \<or> isLoading s"
  shows "handleSendMessage env s = Inr (s, noEffects) \<and> fetchCalls noEffects = []"
  using assms by (auto simp: handleSendMessage_def truthy_def trim_empty_iff noEffects_def)

theorem send_guard_returns_witness:
  "trim (lit ''  '') = []
   \<and> handleSendMessage
        \<lparr>userIdNow = 1000, userTimestamp = 1000, botIdNow = 1001, botTimestamp = 1001,
         upstream = Responded True
                      (JsonParsed (JsObject [(lit ''response'', JsString (lit ''hello''))]))\<rparr>
        \<lparr>messages = [], inputValue = lit ''  '', isLoading = False\<rparr>
      = Inr (\<lparr>messages = [], inputValue = lit ''  '', isLoading = False\<rparr>, noEffects)"
proof -
  have h: "\<forall>c \<in> set (lit ''  ''). isWhiteSpace c"
    by (simp add: lit_def isWhiteSpace_def)
  then have blank: "trim (lit ''  '') = []"
    by (simp add: trim_empty_iff)
  from h have "(\<forall>c \<in> set (inputValue \<lparr>messages = [], inputValue = lit ''  '', isLoading = False\<rparr>).
                isWhiteSpace c)
             \<or> isLoading \<lparr>messages = [], inputValue = lit ''  '', isLoading = False\<rparr>"
    by simp
  from send_guard_returns [OF this] blank show ?thesis by blast
qed

text \<open>
  Claim C5. A response is served from the offline table only when the live call was made
  and failed: \<open>fetch\<close> rejected, the status was not ok, or the body could not be read. A
  live call that succeeded never yields a fallback response. (The component has no
  circuit, so no call is short-circuited.)
\<close>

theorem fallback_only_after_failure:
  assumes "handleSendMessage env s = Inr (s', fx)"
  shows "sourceOf fx = Some FALLBACK
         \<longleftrightarrow> truthy (trim (inputValue s)) \<and> \<not> isLoading s \<and> \<not> liveCallSucceeded (upstream env)"
proof (cases "\<not> truthy (trim (inputValue s)) \<or> isLoading s")
  case True
  with assms have "fx = noEffects" by (auto simp: handleSendMessage_def)
  with True show ?thesis by (auto simp: sourceOf_def noEffects_def)
next
  case guard: False
  let ?s1 = "s\<lparr>messages := messages s @ [userMessage env s], inputValue := [], isLoading := True\<rparr>"
  let ?fx1 = "noEffects\<lparr>fetchCalls := [chatRequest s]\<rparr>"
  show ?thesis
  proof (cases "liveCallSucceeded (upstream env)")
    case True
    from tryBlock_success [OF True, of "inputValue s" ?s1]
    obtain s2 where "tryBlock env (inputValue s) ?s1 = Inr s2" by blast
    with guard assms have "fx = ?fx1" by (simp add: handleSendMessage_def Let_def)
    with True guard show ?thesis by (simp add: sourceOf_def noEffects_def)
  next
    case False
    from tryBlock_failure [OF False, of "inputValue s" ?s1]
    obtain e where "tryBlock env (inputValue s) ?s1 = Inl e" by blast
    with guard assms have "fx = snd (catchBlock env (inputValue s) e (?s1, ?fx1))"
      by (simp add: handleSendMessage_def Let_def)
    with False guard show ?thesis
      by (simp add: sourceOf_def noEffects_def catchBlock_def Let_def)
  qed
qed

theorem fallback_only_after_failure_witness:
  "\<exists>s' fx.
     handleSendMessage
       \<lparr>userIdNow = 1000, userTimestamp = 1000, botIdNow = 1001, botTimestamp = 1001,
        upstream = Responded False JsonRejected\<rparr>
       \<lparr>messages = [], inputValue = lit ''dp'', isLoading = False\<rparr> = Inr (s', fx)
     \<and> sourceOf fx = Some FALLBACK
     \<and> \<not> liveCallSucceeded (Responded False JsonRejected)"
proof -
  let ?env = "\<lparr>userIdNow = 1000, userTimestamp = 1000, botIdNow = 1001, botTimestamp = 1001,
               upstream = Responded False JsonRejected\<rparr>"
  let ?s = "\<lparr>messages = [], inputValue = lit ''dp'', isLoading = False\<rparr>"
  obtain s' fx where eq: "handleSendMessage ?env ?s = Inr (s', fx)"
    using handleSendMessage_resolves by blast
  have h: "truthy (trim (inputValue ?s)) \<and> \<not> isLoading ?s \<and> \<not> liveCallSucceeded (upstream ?env)"
    by (simp add: truthy_def trim_def isWhiteSpace_def lit_def liveCallSucceeded_def)
  with fallback_only_after_failure [OF eq] have "sourceOf fx = Some FALLBACK" by blast
  with eq h show ?thesis by auto
qed

section \<open>The course form: verification\<close>

lemma isNonCSE_empty: "\<not> isNonCSE []"
  by (simp add: isNonCSE_def nonCSEKeywords_def toLowerCase_def lit_def)

lemma formStep_warning:
  assumes "showNonCSEWarning s = isNonCSE (customTopic s)"
  shows "showNonCSEWarning (formStep s ev) = isNonCSE (customTopic (formStep s ev))"
  using assms isNonCSE_empty
  by (cases ev) (simp_all add: handleSubjectSelect_def handleCustomTopicChange_def handleSubmit_def)

lemma formAfter_warning:
  "showNonCSEWarning (formAfter events) = isNonCSE (customTopic (formAfter events))"
proof (induction events rule: rev_induct)
  case Nil
  show ?case using isNonCSE_empty by (simp add: formAfter_def initialForm_def)
next
  case (snoc ev events)
  then show ?case using formStep_warning [of "formAfter events" ev]
    by (simp add: formAfter_def)
qed

text \<open>
  Claim C10. The course form never calls \<open>onSubmit\<close> when the chosen course name is
  empty or all white space, or when the custom topic contains one of the twelve non-CSE
  keywords (in any case of letters); a submission with such input leaves the whole form
  state as it was. The form's state is any state the user can reach from the initial one:
  there the warning flag, which is what \<open>handleSubmit\<close> tests, says exactly whether the
  custom topic contains a keyword.
\<close>

theorem submit_blocked:
  assumes "s = formAfter events"
    and "(\<forall>c \<in> set (courseName s). isWhiteSpace c) \<or> isNonCSE (customTopic s)"
  shows "handleSubmit s = (s, None)"
  using assms formAfter_warning [of events]
  by (auto simp: handleSubmit_def truthy_def trim_empty_iff)

theorem submit_blocked_witness:
  "isNonCSE (customTopic (formAfter [CustomTopicChange (lit ''Organic Chemistry'')]))
   \<and> handleSubmit (formAfter [CustomTopicChange (lit ''Organic Chemistry'')])
       = (formAfter [CustomTopicChange (lit ''Organic Chemistry'')], None)"
proof -
  let ?s = "formAfter [CustomTopicChange (lit ''Organic Chemistry'')]"
  have h: "isNonCSE (customTopic ?s)"
    by (simp add: formAfter_def initialForm_def handleCustomTopicChange_def isNonCSE_def
        nonCSEKeywords_def toLowerCase_def lowerUnit_def lit_def)
  then have "(\<forall>c \<in> set (courseName ?s). isWhiteSpace c) \<or> isNonCSE (customTopic ?s)" ..
  from submit_blocked [OF refl this] h show ?thesis by blast
qed

section \<open>The gateway core: verification\<close>

lemma route_services: "services (snd (route g env req)) = services g"
  by (simp add: route_def Let_def split: option.splits sum.splits)

lemma serve_services: "services (serve g calls) = services g"
  by (induction calls rule: rev_induct) (simp_all add: serve_def route_services)

text \<open>
  Claim C7. For every service name in the registry's configuration, \<open>resolve\<close> returns
  the descriptor configured under it; for every name that is absent, \<open>resolve\<close> fails with
  \<open>UnknownServiceError\<close>; and the registry is never changed after start-up: it is the same
  after any routed request, and after any run of them.
\<close>

theorem registry_resolve:
  "(services g n = Some d \<longrightarrow> resolve (services g) n = Inr d)
   \<and> (n \<notin> dom (services g) \<longrightarrow> resolve (services g) n = Inl UnknownServiceError)
   \<and> services (snd (route g env req)) = services g
   \<and> services (serve g calls) = services g"
  by (auto simp: resolve_def route_services serve_services split: option.splits)

theorem registry_resolve_witness:
  "resolve [''course-service'' \<mapsto>
             \<lparr>name = ''course-service'', baseURL = ''http://localhost:8001'',
              healthPath = ''/health'', timeoutMs = 30000, maxRetries = 0\<rparr>] ''course-service''
     = Inr \<lparr>name = ''course-service'', baseURL = ''http://localhost:8001'',
            healthPath = ''/health'', timeoutMs = 30000, maxRetries = 0\<rparr>
   \<and> resolve [''course-service'' \<mapsto>
             \<lparr>name = ''course-service'', baseURL = ''http://localhost:8001'',
              healthPath = ''/health'', timeoutMs = 30000, maxRetries = 0\<rparr>] ''unknown''
     = Inl UnknownServiceError"
proof -
  let ?d = "\<lparr>name = ''course-service'', baseURL = ''http://localhost:8001'',
             healthPath = ''/health'', timeoutMs = 30000, maxRetries = 0\<rparr>"
  let ?g = "\<lparr>operations = [''generateCourse'' \<mapsto> ''course-service''],
             services = [''course-service'' \<mapsto> ?d],
             credentials = \<lparr>defaultKey = Some ''default-key'', serviceKey = Map.empty\<rparr>,
             policy = \<lparr>threshold = 3, coolDown = 30\<rparr>,
             health = (\<lambda>svc. freshHealth)\<rparr>"
  have known: "services ?g ''course-service'' = Some ?d" by simp
  have unknown: "''unknown'' \<notin> dom (services ?g)" by simp
  from registry_resolve [of ?g "''course-service''" ?d] known
  have a: "resolve (services ?g) ''course-service'' = Inr ?d" by blast
  from registry_resolve [of ?g "''unknown''"] unknown
  have b: "resolve (services ?g) ''unknown'' = Inl UnknownServiceError" by blast
  from a b show ?thesis by simp
qed

text \<open>
  Claim C6. For every service name, credential resolution returns the service's own key
  when that exists and is non-empty, otherwise the default key, and it fails with
  \<open>MissingCredentialError\<close> exactly when there is neither a non-empty key of the service
  nor a default key.
\<close>

theorem credential_resolution:
  "(\<forall>k. serviceKey cfg svc = Some k \<and> k \<noteq> [] \<longrightarrow> credentialFor cfg svc = Inr k)
   \<and> (\<forall>d. (serviceKey cfg svc = None \<or> serviceKey cfg svc = Some []) \<and> defaultKey cfg = Some d
          \<longrightarrow> credentialFor cfg svc = Inr d)
   \<and> (credentialFor cfg svc = Inl MissingCredentialError
        \<longleftrightarrow> (serviceKey cfg svc = None \<or> serviceKey cfg svc = Some []) \<and> defaultKey cfg = None)"
  by (auto simp: credentialFor_def split: option.splits)

theorem credential_resolution_witness:
  "credentialFor \<lparr>defaultKey = Some ''default-groq-key'',
                  serviceKey = [''course-service'' \<mapsto> ''course-groq-key'']\<rparr> ''course-service''
     = Inr ''course-groq-key''
   \<and> credentialFor \<lparr>defaultKey = Some ''default-groq-key'',
                    serviceKey = [''course-service'' \<mapsto> ''course-groq-key'']\<rparr> ''profile-service''
     = Inr ''default-groq-key''
   \<and> credentialFor \<lparr>defaultKey = None, serviceKey = [''course-service'' \<mapsto> []]\<rparr>
        ''course-service''
     = Inl MissingCredentialError"
proof -
  let ?cfg = "\<lparr>defaultKey = Some ''default-groq-key'',
               serviceKey = [''course-service'' \<mapsto> ''course-groq-key'']\<rparr>"
  let ?none = "\<lparr>defaultKey = None, serviceKey = [''course-service'' \<mapsto> []]\<rparr>"
  have h1: "serviceKey ?cfg ''course-service'' = Some ''course-groq-key'' \<and> ''course-groq-key'' \<noteq> []"
    by simp
  have h2: "(serviceKey ?cfg ''profile-service'' = None \<or> serviceKey ?cfg ''profile-service'' = Some [])
            \<and> defaultKey ?cfg = Some ''default-groq-key''"
    by simp
  have h3: "(serviceKey ?none ''course-service'' = None \<or> serviceKey ?none ''course-service'' = Some [])
            \<and> defaultKey ?none = None"
    by simp
  from credential_resolution [of ?cfg "''course-service''"] h1
  have a: "credentialFor ?cfg ''course-service'' = Inr ''course-groq-key''" by blast
  from credential_resolution [of ?cfg "''profile-service''"] h2
  have b: "credentialFor ?cfg ''profile-service'' = Inr ''default-groq-key''" by blast
  from credential_resolution [of ?none "''course-service''"] h3
  have c: "credentialFor ?none ''course-service'' = Inl MissingCredentialError" by blast
  from a b c show ?thesis by blast
qed

lemma closed_failure:
  assumes "status h = CLOSED"
  shows "snd (guardedCall p now False h) =
           (if threshold p \<le> consecutiveFailures h + 1
            then h\<lparr>status := OPEN, consecutiveFailures := consecutiveFailures h + 1, openedAt := now\<rparr>
            else h\<lparr>consecutiveFailures := consecutiveFailures h + 1\<rparr>)"
  using assms by (simp add: guardedCall_def admit_def report_def)

lemma afterFailures_snoc:
  "afterFailures p (ts @ [t]) h = snd (guardedCall p t False (afterFailures p ts h))"
  by (simp add: afterFailures_def)

lemma afterFailures_below:
  assumes "status h = CLOSED" and "consecutiveFailures h + length ts < threshold p"
  shows "afterFailures p ts h = h\<lparr>consecutiveFailures := consecutiveFailures h + length ts\<rparr>"
  using assms
proof (induction ts rule: rev_induct)
  case Nil
  then show ?case by (simp add: afterFailures_def)
next
  case (snoc t ts)
  then have prev: "afterFailures p ts h = h\<lparr>consecutiveFailures := consecutiveFailures h + length ts\<rparr>"
    by simp
  have "status (afterFailures p ts h) = CLOSED" using prev snoc.prems by simp
  from closed_failure [OF this, of p t] prev snoc.prems show ?case
    by (simp add: afterFailures_snoc)
qed

lemma afterFailures_opens:
  assumes "status h = CLOSED" and "consecutiveFailures h + length ts + 1 = threshold p"
  shows "afterFailures p (ts @ [t]) h
         = h\<lparr>status := OPEN, consecutiveFailures := threshold p, openedAt := t\<rparr>"
proof -
  from assms have prev: "afterFailures p ts h = h\<lparr>consecutiveFailures := consecutiveFailures h + length ts\<rparr>"
    by (intro afterFailures_below) simp_all
  have "status (afterFailures p ts h) = CLOSED" using prev assms by simp
  from closed_failure [OF this, of p t] prev assms show ?thesis
    by (simp add: afterFailures_snoc)
qed

text \<open>
  Claim C3. The circuit of a service. From CLOSED, each failure adds one to
  \<open>consecutiveFailures\<close>, and the circuit is OPEN afterwards exactly when the count has
  reached the threshold: a run of failures from a clean CLOSED circuit leaves it CLOSED
  until the failure that makes the count equal to the threshold, which opens it. While
  OPEN and inside the cool-down, every call is answered from the fallback with no call of
  the upstream and no change of state. After the cool-down the next call is admitted as
  the one probe, and while it is out every other call is turned away; if the probe
  succeeds the circuit is CLOSED with the count at 0, if it fails the circuit is OPEN
  again and the cool-down starts anew.
\<close>

theorem circuit_transitions:
  "(status h = CLOSED \<longrightarrow>
      consecutiveFailures (snd (guardedCall p now False h)) = consecutiveFailures h + 1
      \<and> (status (snd (guardedCall p now False h)) = OPEN
           \<longleftrightarrow> threshold p \<le> consecutiveFailures h + 1)
      \<and> (status (snd (guardedCall p now False h)) = CLOSED
           \<longleftrightarrow> consecutiveFailures h + 1 < threshold p))
   \<and> (status h = CLOSED \<and> consecutiveFailures h = 0 \<and> length ts + 1 = threshold p \<longrightarrow>
        afterFailures p ts h = h\<lparr>consecutiveFailures := length ts\<rparr>
        \<and> afterFailures p (ts @ [now]) h
            = h\<lparr>status := OPEN, consecutiveFailures := threshold p, openedAt := now\<rparr>)
   \<and> (status h = OPEN \<and> now < openedAt h + coolDown p \<longrightarrow>
        guardedCall p now succeeds h = ((FALLBACK, 0), h))
   \<and> (status h = OPEN \<and> openedAt h + coolDown p \<le> now \<longrightarrow>
        admit p now h = (Probe, h\<lparr>status := HALF_OPEN\<rparr>)
        \<and> admit p later (h\<lparr>status := HALF_OPEN\<rparr>) = (ShortCircuit, h\<lparr>status := HALF_OPEN\<rparr>)
        \<and> guardedCall p now True h = ((LIVE, 1), h\<lparr>status := CLOSED, consecutiveFailures := 0\<rparr>)
        \<and> guardedCall p now False h = ((FALLBACK, 1), h\<lparr>status := OPEN, openedAt := now\<rparr>))"
proof (intro conjI impI)
  assume c: "status h = CLOSED"
  from closed_failure [OF c, of p now]
  show "consecutiveFailures (snd (guardedCall p now False h)) = consecutiveFailures h + 1"
    by simp
  from closed_failure [OF c, of p now] c
  show "status (snd (guardedCall p now False h)) = OPEN \<longleftrightarrow> threshold p \<le> consecutiveFailures h + 1"
    by simp
  from closed_failure [OF c, of p now] c
  show "status (snd (guardedCall p now False h)) = CLOSED \<longleftrightarrow> consecutiveFailures h + 1 < threshold p"
    by (simp add: not_le)
next
  assume a: "status h = CLOSED \<and> consecutiveFailures h = 0 \<and> length ts + 1 = threshold p"
  then show "afterFailures p ts h = h\<lparr>consecutiveFailures := length ts\<rparr>"
    using afterFailures_below [of h ts p] by simp
  from a show "afterFailures p (ts @ [now]) h
      = h\<lparr>status := OPEN, consecutiveFailures := threshold p, openedAt := now\<rparr>"
    using afterFailures_opens [of h ts p now] by simp
next
  assume "status h = OPEN \<and> now < openedAt h + coolDown p"
  then show "guardedCall p now succeeds h = ((FALLBACK, 0), h)"
    by (simp add: guardedCall_def admit_def)
next
  assume o: "status h = OPEN \<and> openedAt h + coolDown p \<le> now"
  then show "admit p now h = (Probe, h\<lparr>status := HALF_OPEN\<rparr>)"
    by (simp add: admit_def)
  show "admit p later (h\<lparr>status := HALF_OPEN\<rparr>) = (ShortCircuit, h\<lparr>status := HALF_OPEN\<rparr>)"
    by (simp add: admit_def)
  from o show "guardedCall p now True h = ((LIVE, 1), h\<lparr>status := CLOSED, consecutiveFailures := 0\<rparr>)"
    by (simp add: guardedCall_def admit_def report_def)
  from o show "guardedCall p now False h = ((FALLBACK, 1), h\<lparr>status := OPEN, openedAt := now\<rparr>)"
    by (simp add: guardedCall_def admit_def report_def)
qed


theorem circuit_transitions_witness:
  "afterFailures \<lparr>threshold = 3, coolDown = 30\<rparr> [1, 2, 3] freshHealth
     = \<lparr>status = OPEN, consecutiveFailures = 3, openedAt = 3\<rparr>
   \<and> guardedCall \<lparr>threshold = 3, coolDown = 30\<rparr> 20 True
        \<lparr>status = OPEN, consecutiveFailures = 3, openedAt = 3\<rparr>
     = ((FALLBACK, 0), \<lparr>status = OPEN, consecutiveFailures = 3, openedAt = 3\<rparr>)
   \<and> guardedCall \<lparr>threshold = 3, coolDown = 30\<rparr> 33 True
        \<lparr>status = OPEN, consecutiveFailures = 3, openedAt = 3\<rparr>
     = ((LIVE, 1), \<lparr>status = CLOSED, consecutiveFailures = 0, openedAt = 3\<rparr>)
   \<and> guardedCall \<lparr>threshold = 3, coolDown = 30\<rparr> 33 False
        \<lparr>status = OPEN, consecutiveFailures = 3, openedAt = 3\<rparr>
     = ((FALLBACK, 1), \<lparr>status = OPEN, consecutiveFailures = 3, openedAt = 33\<rparr>)"
proof -
  let ?p = "\<lparr>threshold = 3, coolDown = 30\<rparr>"
  let ?o = "\<lparr>status = OPEN, consecutiveFailures = 3, openedAt = 3\<rparr>"
  have closed: "status freshHealth = CLOSED \<and> consecutiveFailures freshHealth = 0
                \<and> length [1, 2 :: nat] + 1 = threshold ?p"
    by (simp add: freshHealth_def)
  from circuit_transitions [of freshHealth ?p 3 "[1, 2]"] closed
  have "afterFailures ?p ([1, 2] @ [3]) freshHealth
        = freshHealth\<lparr>status := OPEN, consecutiveFailures := threshold ?p, openedAt := 3\<rparr>"
    by blast
  then have a: "afterFailures ?p [1, 2, 3] freshHealth = ?o"
    by (simp add: freshHealth_def)
  have within: "status ?o = OPEN \<and> 20 < openedAt ?o + coolDown ?p" by simp
  from circuit_transitions [of ?o ?p 20 _ True] within
  have b: "guardedCall ?p 20 True ?o = ((FALLBACK, 0), ?o)" by blast
  have after: "status ?o = OPEN \<and> openedAt ?o + coolDown ?p \<le> 33" by simp
  from circuit_transitions [of ?o ?p 33] after
  have "guardedCall ?p 33 True ?o = ((LIVE, 1), ?o\<lparr>status := CLOSED, consecutiveFailures := 0\<rparr>)"
    and "guardedCall ?p 33 False ?o = ((FALLBACK, 1), ?o\<lparr>status := OPEN, openedAt := 33\<rparr>)"
    by blast+
  then have c: "guardedCall ?p 33 True ?o = ((LIVE, 1), \<lparr>status = CLOSED, consecutiveFailures = 0, openedAt = 3\<rparr>)"
    and d: "guardedCall ?p 33 False ?o = ((FALLBACK, 1), \<lparr>status = OPEN, consecutiveFailures = 3, openedAt = 33\<rparr>)"
    by simp_all
  from a b c d show ?thesis by blast
qed

end
